theory Spec2Isabelle
  imports Main "HOL-Library.Word" "HOL-Library.Sublist" "HOL-Library.List_Lexorder"
begin

section \<open>The URL shortener client: data model\<close>

text \<open>
  The development embeds the screen component \<^verbatim>\<open>Index\<close> of
  \<^verbatim>\<open>frontend/app/index.tsx\<close>. A JavaScript string is a sequence of UTF-16 code
  units; \<^verbatim>\<open>length\<close>, \<^verbatim>\<open>substring\<close>, \<^verbatim>\<open>trim\<close> and the regular expression
  without the \<^verbatim>\<open>u\<close> flag all work on code units.
\<close>

type_synonym jschar = "16 word"
type_synonym jsstring = "jschar list"

text \<open>String literals of the source, written with ASCII characters.\<close>

definition js :: "string \<Rightarrow> jsstring" where
  "js s = map of_char s"

text \<open>\<^verbatim>\<open>interface URL\<close> (lines 27-34). \<^verbatim>\<open>clicks\<close> is a number; the client
  only displays it.\<close>

record URL =
  original_url :: jsstring
  short_code :: jsstring
  clicks :: int
  created_at :: jsstring
  qr_code :: jsstring
  custom :: bool

text \<open>The seven \<^verbatim>\<open>useState\<close> cells of the component (lines 37-43).\<close>

record index_state =
  originalUrl :: jsstring
  customCode :: jsstring
  urls :: "URL list"
  loading :: bool
  fetchingUrls :: bool
  selectedQR :: "jsstring option"
  showCustomCode :: bool

definition initial_state :: index_state where
  "initial_state = \<lparr>originalUrl = [], customCode = [], urls = [], loading = False,
     fetchingUrls = True, selectedQR = None, showCustomCode = False\<rparr>"

text \<open>The JSON body of \<^verbatim>\<open>POST /api/shorten\<close> (lines 76-79); \<^verbatim>\<open>null\<close> is
  \<open>None\<close>.\<close>

record shorten_body =
  body_original_url :: jsstring
  body_custom_code :: "jsstring option"

text \<open>
  What a handler does to the outside world, in program order: alerts shown to the user
  (title, message), the confirmation dialog of \<^verbatim>\<open>deleteUrl\<close>, HTTP requests,
  \<^verbatim>\<open>console.error\<close> lines and clipboard writes.
\<close>

datatype effect =
    Alert jsstring jsstring
  | ConfirmAlert jsstring jsstring
  | HttpGet jsstring
  | HttpPost jsstring shorten_body
  | HttpDelete jsstring
  | ConsoleError jsstring
  | ClipboardSet jsstring

text \<open>
  The backend is outside the component: each handler receives the outcome of its
  \<^verbatim>\<open>await\<close> as an argument. A rejected POST carries
  \<^verbatim>\<open>error.response?.data?.detail\<close>, \<open>None\<close> when any link of that chain is
  undefined.
\<close>

datatype post_reply = PostOk URL | PostFailed "jsstring option"
datatype get_reply = GetOk "URL list" | GetFailed
datatype delete_reply = DeleteOk | DeleteFailed
datatype dialog_choice = PressCancel | PressDelete

section \<open>String primitives of the JavaScript runtime\<close>

text \<open>ECMAScript \<^verbatim>\<open>LineTerminator\<close>: LF, CR, LS, PS. The regular expression
  atom \<^verbatim>\<open>.\<close> matches every code unit but these.\<close>

definition isLineTerminator :: "jschar \<Rightarrow> bool" where
  "isLineTerminator c = (c = 0x000A \<or> c = 0x000D \<or> c = 0x2028 \<or> c = 0x2029)"

text \<open>ECMAScript \<^verbatim>\<open>WhiteSpace\<close>: TAB, VT, FF, ZWNBSP and the space separators.\<close>

definition isWhiteSpace :: "jschar \<Rightarrow> bool" where
  "isWhiteSpace c = (c = 0x0009 \<or> c = 0x000B \<or> c = 0x000C \<or> c = 0x0020 \<or> c = 0x00A0
     \<or> c = 0x1680 \<or> (0x2000 \<le> c \<and> c \<le> 0x200A) \<or> c = 0x202F \<or> c = 0x205F
     \<or> c = 0x3000 \<or> c = 0xFEFF)"

text \<open>What \<^verbatim>\<open>String.prototype.trim\<close> strips from both ends.\<close>

definition isTrimmed :: "jschar \<Rightarrow> bool" where
  "isTrimmed c = (isWhiteSpace c \<or> isLineTerminator c)"

definition trim :: "jsstring \<Rightarrow> jsstring" where
  "trim s = rev (dropWhile isTrimmed (rev (dropWhile isTrimmed s)))"

text \<open>\<^verbatim>\<open>s.substring(start, end)\<close>: both indices are clamped to
  \<open>[0, length]\<close> and swapped when out of order.\<close>

definition substring :: "jsstring \<Rightarrow> int \<Rightarrow> int \<Rightarrow> jsstring" where
  "substring s indexStart indexEnd =
     (let len = int (length s);
          finalStart = min (max indexStart 0) len;
          finalEnd = min (max indexEnd 0) len;
          from = min finalStart finalEnd;
          to = max finalStart finalEnd
      in take (nat (to - from)) (drop (nat from) s))"

fun dropPrefix :: "jsstring \<Rightarrow> jsstring \<Rightarrow> jsstring option" where
  "dropPrefix [] s = Some s"
| "dropPrefix (p # ps) [] = None"
| "dropPrefix (p # ps) (c # cs) = (if p = c then dropPrefix ps cs else None)"

text \<open>\<^verbatim>\<open>.+\<close> at the end of an unanchored pattern: one code unit that is not a
  line terminator suffices.\<close>

fun dotPlus :: "jsstring \<Rightarrow> bool" where
  "dotPlus [] = False"
| "dotPlus (c # cs) = (\<not> isLineTerminator c)"

text \<open>
  \<^verbatim>\<open>originalUrl.match(/^https?:\/\/.+/)\<close> is non-null: the literal \<^verbatim>\<open>http\<close> at
  position 0, then \<^verbatim>\<open>s\<close> taken greedily with the empty alternative on backtracking,
  then \<^verbatim>\<open>://\<close> and \<^verbatim>\<open>.+\<close>.
\<close>

definition url_pattern_matches :: "jsstring \<Rightarrow> bool" where
  "url_pattern_matches s =
     (case dropPrefix (js ''http'') s of
        None \<Rightarrow> False
      | Some r \<Rightarrow>
          (let tail = (\<lambda>t. case dropPrefix (js ''://'') t of
                              None \<Rightarrow> False | Some u \<Rightarrow> dotPlus u)
           in case dropPrefix (js ''s'') r of
                Some r' \<Rightarrow> tail r' \<or> tail r
              | None \<Rightarrow> tail r))"

section \<open>The handlers\<close>

text \<open>
  A handler is a closure of the render in which its button was pressed. Every state cell
  it reads (\<^verbatim>\<open>originalUrl\<close>, \<^verbatim>\<open>customCode\<close>, \<^verbatim>\<open>urls\<close>) is the value of that
  render, \<open>render\<close> below, also in the code after an \<^verbatim>\<open>await\<close>; every setter acts on
  the state that is current when it runs, \<open>st\<close> below. Other handlers may complete between
  the press and the reply, so \<open>st\<close> need not be \<open>render\<close>; the two are the same state
  when nothing else intervened. A handler that returns before its \<^verbatim>\<open>await\<close> calls no
  setter. \<^verbatim>\<open>BACKEND_URL\<close> (line 24) is a build-time constant and is a parameter here.
\<close>

text \<open>\<^verbatim>\<open>fetchUrls\<close> (lines 49-60); it reads no state cell.\<close>

definition fetchUrls :: "jsstring \<Rightarrow> get_reply \<Rightarrow> index_state \<Rightarrow> index_state \<times> effect list" where
  "fetchUrls BACKEND_URL reply st =
     (let request = HttpGet (BACKEND_URL @ js ''/api/urls'') in
      case reply of
        GetOk data \<Rightarrow> (st\<lparr>urls := data, fetchingUrls := False\<rparr>, [request])
      | GetFailed \<Rightarrow>
          (st\<lparr>fetchingUrls := False\<rparr>,
           [request, ConsoleError (js ''Error fetching URLs:''),
            Alert (js ''Error'') (js ''Failed to fetch URLs'')]))"

text \<open>\<^verbatim>\<open>shortenUrl\<close> (lines 62-93). \<^verbatim>\<open>x || y\<close> yields \<open>y\<close> when \<open>x\<close> is
  the empty string, \<^verbatim>\<open>null\<close> or \<^verbatim>\<open>undefined\<close>. \<^verbatim>\<open>loading\<close> is set before the
  request and cleared in \<^verbatim>\<open>finally\<close>; the state returned is the one after
  \<^verbatim>\<open>finally\<close>.\<close>

definition shortenUrl ::
  "jsstring \<Rightarrow> post_reply \<Rightarrow> index_state \<Rightarrow> index_state \<Rightarrow> index_state \<times> effect list" where
  "shortenUrl BACKEND_URL reply render st =
     (if trim (originalUrl render) = [] then
        (st, [Alert (js ''Error'') (js ''Please enter a URL'')])
      else if \<not> url_pattern_matches (originalUrl render) then
        (st, [Alert (js ''Error'')
                (js ''Please enter a valid URL (must start with http:// or https://)'')])
      else
        (let request = HttpPost (BACKEND_URL @ js ''/api/shorten'')
               \<lparr>body_original_url = originalUrl render,
                body_custom_code =
                  (if trim (customCode render) = [] then None
                   else Some (trim (customCode render)))\<rparr>
         in case reply of
              PostOk data \<Rightarrow>
                (st\<lparr>urls := data # urls render, originalUrl := [], customCode := [],
                    showCustomCode := False, loading := False\<rparr>,
                 [request, Alert (js ''Success'') (js ''URL shortened successfully!'')])
            | PostFailed detail \<Rightarrow>
                (st\<lparr>loading := False\<rparr>,
                 [request, ConsoleError (js ''Error shortening URL:''),
                  Alert (js ''Error'')
                    (case detail of
                       None \<Rightarrow> js ''Failed to shorten URL''
                     | Some d \<Rightarrow> if d = [] then js ''Failed to shorten URL'' else d)])))"

text \<open>\<^verbatim>\<open>deleteUrl\<close> (lines 95-117): the dialog, and the \<^verbatim>\<open>onPress\<close> of its
  Delete button. Line 107 filters the \<^verbatim>\<open>urls\<close> of the render whose card was
  pressed.\<close>

definition deleteUrl ::
  "jsstring \<Rightarrow> jsstring \<Rightarrow> dialog_choice \<Rightarrow> delete_reply \<Rightarrow> index_state \<Rightarrow> index_state
     \<Rightarrow> index_state \<times> effect list" where
  "deleteUrl BACKEND_URL shortCode choice reply render st =
     (let dialog = ConfirmAlert (js ''Delete URL'')
            (js ''Are you sure you want to delete this shortened URL?'')
      in case choice of
           PressCancel \<Rightarrow> (st, [dialog])
         | PressDelete \<Rightarrow>
             (let request = HttpDelete (BACKEND_URL @ js ''/api/urls/'' @ shortCode) in
              case reply of
                DeleteOk \<Rightarrow>
                  (st\<lparr>urls := filter (\<lambda>url. short_code url \<noteq> shortCode) (urls render)\<rparr>,
                   [dialog, request,
                    Alert (js ''Success'') (js ''URL deleted successfully'')])
              | DeleteFailed \<Rightarrow>
                  (st, [dialog, request, ConsoleError (js ''Error deleting URL:''),
                        Alert (js ''Error'') (js ''Failed to delete URL'')])))"

text \<open>\<^verbatim>\<open>copyToClipboard\<close> (lines 119-122) and \<^verbatim>\<open>getShortUrl\<close> (lines 124-126).\<close>

definition copyToClipboard :: "jsstring \<Rightarrow> effect list" where
  "copyToClipboard text = [ClipboardSet text,
     Alert (js ''Copied!'') (js ''Short URL copied to clipboard'')]"

definition getShortUrl :: "jsstring \<Rightarrow> jsstring \<Rightarrow> jsstring" where
  "getShortUrl BACKEND_URL shortCode = BACKEND_URL @ js ''/api/'' @ shortCode"

text \<open>\<^verbatim>\<open>truncateUrl\<close> (lines 137-140); the bound is a number, read here as an
  integer, and defaults to 40. The one call (line 244) passes 35.\<close>

definition truncateUrl :: "jsstring \<Rightarrow> int \<Rightarrow> jsstring" where
  "truncateUrl url maxLength =
     (if int (length url) \<le> maxLength then url
      else substring url 0 maxLength @ js ''...'')"

definition truncateUrl_default :: "jsstring \<Rightarrow> jsstring" where
  "truncateUrl_default url = truncateUrl url 40"

text \<open>The card of one record (lines 238-298): the text under the label
  \<^verbatim>\<open>Short URL:\<close> (line 257), the title (line 244) and the Copy button
  (line 275).\<close>

definition shortCodeText :: "jsstring \<Rightarrow> URL \<Rightarrow> jsstring" where
  "shortCodeText BACKEND_URL url = BACKEND_URL @ js ''/api/'' @ short_code url"

definition urlCardTitle :: "URL \<Rightarrow> jsstring" where
  "urlCardTitle url = truncateUrl (original_url url) 35"

definition copyPressed :: "jsstring \<Rightarrow> URL \<Rightarrow> effect list" where
  "copyPressed BACKEND_URL url = copyToClipboard (getShortUrl BACKEND_URL (short_code url))"

section \<open>Observations\<close>

text \<open>The HTTP requests among the effects of a handler, and the bodies posted.\<close>

fun isRequest :: "effect \<Rightarrow> bool" where
  "isRequest (HttpGet u) = True"
| "isRequest (HttpPost u b) = True"
| "isRequest (HttpDelete u) = True"
| "isRequest _ = False"

definition requests :: "effect list \<Rightarrow> effect list" where
  "requests es = filter isRequest es"

fun posted :: "effect list \<Rightarrow> shorten_body list" where
  "posted [] = []"
| "posted (HttpPost u b # es) = b # posted es"
| "posted (e # es) = posted es"

fun alerts :: "effect list \<Rightarrow> (jsstring \<times> jsstring) list" where
  "alerts [] = []"
| "alerts (Alert t m # es) = (t, m) # alerts es"
| "alerts (e # es) = alerts es"

fun clipboard :: "effect list \<Rightarrow> jsstring list" where
  "clipboard [] = []"
| "clipboard (ClipboardSet t # es) = t # clipboard es"
| "clipboard (e # es) = clipboard es"

definition codes :: "URL list \<Rightarrow> jsstring list" where
  "codes us = map short_code us"

text \<open>
  Newest first. The client keeps \<^verbatim>\<open>created_at\<close> as the string the backend sent and
  never compares two of them; \<open>stamp\<close> is the reading of that string as a point in time.
\<close>

definition newest_first :: "(jsstring \<Rightarrow> 'k::linorder) \<Rightarrow> URL list \<Rightarrow> bool" where
  "newest_first stamp us =
     sorted_wrt (\<lambda>a b. stamp (created_at b) \<le> stamp (created_at a)) us"

section \<open>Sample data\<close>

text \<open>A record as the backend serialises it, and the screens used in the examples:
  with one, two and three listed records, each with a URL typed into the field.\<close>

definition sample_record :: "string \<Rightarrow> string \<Rightarrow> string \<Rightarrow> URL" where
  "sample_record target code stamp =
     \<lparr>original_url = js target, short_code = js code, clicks = 0,
      created_at = js stamp, qr_code = [], custom = False\<rparr>"

definition sample_backend :: jsstring where
  "sample_backend = js ''https://sho.rt''"

definition rec_abc :: URL where
  "rec_abc = sample_record ''https://example.org/a'' ''abc'' ''2024-05-01T10:00:00''"

definition rec_xyz :: URL where
  "rec_xyz = sample_record ''https://example.org/b'' ''xyz'' ''2024-05-02T09:30:00''"

definition rec_new :: URL where
  "rec_new = sample_record ''https://example.org/c'' ''q1w2e3'' ''2024-05-03T08:00:00''"

definition one_listed :: index_state where
  "one_listed = initial_state
     \<lparr>urls := [sample_record ''https://example.org/a'' ''abc'' ''2024-05-01T10:00:00''],
      fetchingUrls := False\<rparr>"

definition two_listed :: index_state where
  "two_listed = initial_state
     \<lparr>originalUrl := js ''https://example.org/c'', urls := [rec_xyz, rec_abc],
      fetchingUrls := False\<rparr>"

definition three_listed :: index_state where
  "three_listed = initial_state\<lparr>urls := [rec_new, rec_xyz, rec_abc], fetchingUrls := False\<rparr>"

text \<open>A title of 38 code units that ends in three dots, and one of 39 that does not.\<close>

definition dotted_url :: jsstring where
  "dotted_url = js ''https://example.org/abcdefghijklmno...''"

definition long_url :: jsstring where
  "long_url = js ''https://example.org/abcdefghijklmnopqrs''"

section \<open>Facts about the string primitives\<close>

lemma dropPrefix_Some_iff: "dropPrefix p s = Some r \<longleftrightarrow> s = p @ r"
  by (induction p s rule: dropPrefix.induct) auto

lemma dropPrefix_None_iff: "dropPrefix p s = None \<longleftrightarrow> (\<forall>r. s \<noteq> p @ r)"
  by (induction p s rule: dropPrefix.induct) auto

lemma dotPlus_iff: "dotPlus u \<longleftrightarrow> (\<exists>c t. u = c # t \<and> \<not> isLineTerminator c)"
  by (cases u) auto

lemma js_http: "js ''http'' = [0x68, 0x74, 0x74, 0x70]"
  by (simp add: js_def)
lemma js_s: "js ''s'' = [0x73]"
  by (simp add: js_def)
lemma js_sep: "js ''://'' = [0x3A, 0x2F, 0x2F]"
  by (simp add: js_def)
lemma js_http_url: "js ''http://'' = [0x68, 0x74, 0x74, 0x70, 0x3A, 0x2F, 0x2F]"
  by (simp add: js_def)
lemma js_https_url: "js ''https://'' = [0x68, 0x74, 0x74, 0x70, 0x73, 0x3A, 0x2F, 0x2F]"
  by (simp add: js_def)

lemma url_pattern_matches_iff:
  "url_pattern_matches s \<longleftrightarrow>
     (\<exists>c t. \<not> isLineTerminator c \<and> (s = js ''http://'' @ c # t \<or> s = js ''https://'' @ c # t))"
  unfolding url_pattern_matches_def Let_def
  by (auto simp: dropPrefix_Some_iff dotPlus_iff js_http js_s js_sep js_http_url js_https_url
      split: option.splits)

lemma dropWhile_all_iff: "(\<forall>x\<in>set (dropWhile P xs). P x) \<longleftrightarrow> (\<forall>x\<in>set xs. P x)"
  by (induction xs) auto

lemma trim_empty_iff: "trim s = [] \<longleftrightarrow> (\<forall>c\<in>set s. isTrimmed c)"
  by (simp add: trim_def dropWhile_all_iff)

lemma trim_hd: "trim s \<noteq> [] \<Longrightarrow> \<not> isTrimmed (hd (trim s))"
proof -
  assume ne: "trim s \<noteq> []"
  let ?a = "dropWhile isTrimmed s"
  have a_ne: "?a \<noteq> []" using ne by (simp add: trim_empty_iff)
  then have hd_a: "\<not> isTrimmed (hd ?a)" by (rule hd_dropWhile)
  obtain x xs where a: "?a = x # xs" using a_ne by (cases ?a) auto
  have x: "\<not> isTrimmed x" using hd_a a by simp
  have "trim s = rev (dropWhile isTrimmed (rev xs @ [x]))" by (simp add: trim_def a)
  also have "\<dots> = rev (dropWhile isTrimmed (rev xs) @ [x])"
    using x by (simp add: dropWhile_append)
  finally show ?thesis using x by simp
qed

lemma trim_last: "trim s \<noteq> [] \<Longrightarrow> \<not> isTrimmed (last (trim s))"
proof -
  assume ne: "trim s \<noteq> []"
  let ?b = "dropWhile isTrimmed (rev (dropWhile isTrimmed s))"
  have b_ne: "?b \<noteq> []" using ne by (simp add: trim_def)
  then have "\<not> isTrimmed (hd ?b)" by (rule hd_dropWhile)
  then show ?thesis using b_ne by (simp add: trim_def last_rev)
qed

lemma url_pattern_matches_hd:
  "url_pattern_matches s \<Longrightarrow> \<exists>t. s = 0x68 # t"
  by (auto simp: url_pattern_matches_iff js_http_url js_https_url)

lemma h_not_trimmed: "\<not> isTrimmed 0x68"
  by (simp add: isTrimmed_def isWhiteSpace_def isLineTerminator_def)

lemma url_pattern_matches_trim: "url_pattern_matches s \<Longrightarrow> trim s \<noteq> []"
  using h_not_trimmed by (auto simp: trim_empty_iff dest!: url_pattern_matches_hd)

lemma rev_dropWhile_takeWhile: "rev (dropWhile P ys) @ rev (takeWhile P ys) = rev ys"
  by (simp only: rev_append [symmetric] takeWhile_dropWhile_id)

lemma trim_decomp:
  "\<exists>l r. s = l @ trim s @ r \<and> (\<forall>x\<in>set l. isTrimmed x) \<and> (\<forall>x\<in>set r. isTrimmed x)"
proof -
  let ?l = "takeWhile isTrimmed s"
  let ?a = "dropWhile isTrimmed s"
  let ?r = "rev (takeWhile isTrimmed (rev ?a))"
  have "trim s @ ?r = rev (rev ?a)"
    unfolding trim_def by (rule rev_dropWhile_takeWhile)
  then have a: "?a = trim s @ ?r" by simp
  have "s = ?l @ ?a" by simp
  then have "s = ?l @ trim s @ ?r" using a by simp
  moreover have "\<forall>x\<in>set ?l. isTrimmed x" by (auto dest: set_takeWhileD)
  moreover have "\<forall>x\<in>set ?r. isTrimmed x" by (auto dest: set_takeWhileD)
  ultimately show ?thesis by blast
qed

lemma not_a_url: "\<not> url_pattern_matches (js ''not-a-url'')"
  by (simp add: url_pattern_matches_def js_def)

lemma blank_no_url: "\<not> url_pattern_matches (js ''   '')"
  by (simp add: url_pattern_matches_def js_def)

lemma empty_no_url: "\<not> url_pattern_matches []"
  by (simp add: url_pattern_matches_def js_def)

lemma ok_url: "url_pattern_matches (js ''https://example.org/c'')"
  by (simp add: url_pattern_matches_def js_def isLineTerminator_def)

lemma ok_url_http: "url_pattern_matches (js ''http://x'')"
  by (simp add: url_pattern_matches_def js_def isLineTerminator_def)

section \<open>Facts about the handlers and the sample data\<close>

text \<open>The record list after each handler.\<close>

lemma urls_deleteUrl:
  "urls (fst (deleteUrl B c choice dreply render st)) =
     (if choice = PressDelete \<and> dreply = DeleteOk
      then filter (\<lambda>url. short_code url \<noteq> c) (urls render) else urls st)"
  by (cases choice; cases dreply) (simp_all add: deleteUrl_def)

lemma urls_shortenUrl_PostOk:
  "urls (fst (shortenUrl B (PostOk data) render st)) =
     (if url_pattern_matches (originalUrl render) then data # urls render else urls st)"
  using url_pattern_matches_trim [of "originalUrl render"] by (simp add: shortenUrl_def)

lemma urls_shortenUrl_PostFailed:
  "urls (fst (shortenUrl B (PostFailed detail) render st)) = urls st"
  by (simp add: shortenUrl_def)

lemma urls_fetchUrls:
  "urls (fst (fetchUrls B reply st)) = (case reply of GetOk data \<Rightarrow> data | GetFailed \<Rightarrow> urls st)"
  by (cases reply) (simp_all add: fetchUrls_def)

lemma distinct_codes_filter: "distinct (codes us) \<Longrightarrow> distinct (codes (filter P us))"
  unfolding codes_def by (rule distinct_map_filter)

lemma newest_first_filter: "newest_first stamp us \<Longrightarrow> newest_first stamp (filter P us)"
  unfolding newest_first_def by (rule sorted_wrt_filter)

lemma count_list_filter:
  "count_list (filter P xs) x = (if P x then count_list xs x else 0)"
  by (induction xs) auto

text \<open>
  A confirmed, successful \<^verbatim>\<open>deleteUrl(c)\<close> stores the list of the render whose card
  was pressed, without the records coded \<open>c\<close>, in their order. When no other handler
  changed the list between the press and the reply, that is the previous list without
  them.
\<close>

lemma deleteUrl_filters_pressed_list:
  "urls (fst (deleteUrl B c PressDelete DeleteOk render st)) =
     filter (\<lambda>url. short_code url \<noteq> c) (urls render) \<and>
   c \<notin> set (codes (urls (fst (deleteUrl B c PressDelete DeleteOk render st)))) \<and>
   (\<forall>url. short_code url \<noteq> c \<longrightarrow>
      count_list (urls (fst (deleteUrl B c PressDelete DeleteOk render st))) url =
      count_list (urls render) url) \<and>
   subseq (urls (fst (deleteUrl B c PressDelete DeleteOk render st))) (urls render)"
  by (auto simp: urls_deleteUrl codes_def count_list_filter)

lemma substring_from_0: "substring s 0 n = take (nat n) s"
  by (simp add: substring_def Let_def min_def max_def)

lemma js_dots: "length (js ''...'') = 3"
  by (simp add: js_def)

lemma truncateUrl_short: "length u \<le> n \<Longrightarrow> truncateUrl u (int n) = u"
  by (simp add: truncateUrl_def)

lemma truncateUrl_long: "n < length u \<Longrightarrow> truncateUrl u (int n) = take n u @ js ''...''"
  by (simp add: truncateUrl_def substring_from_0)

lemma truncateUrl_fixed_iff:
  "truncateUrl u (int n) = u \<longleftrightarrow>
     length u \<le> n \<or> (length u = n + 3 \<and> drop n u = js ''...'')"
proof (cases "length u \<le> n")
  case True
  then show ?thesis by (simp add: truncateUrl_short)
next
  case False
  then have long: "n < length u" by simp
  have "take n u @ js ''...'' = u \<longleftrightarrow> take n u @ js ''...'' = take n u @ drop n u"
    by simp
  also have "\<dots> \<longleftrightarrow> js ''...'' = drop n u"
    by (simp only: same_append_eq)
  finally have eq: "truncateUrl u (int n) = u \<longleftrightarrow> drop n u = js ''...''"
    using long by (auto simp: truncateUrl_long)
  have "length u = n + 3" if "drop n u = js ''...''"
  proof -
    have "length (drop n u) = 3" using that by (simp add: js_dots)
    then show ?thesis using long by simp
  qed
  then show ?thesis using eq False by auto
qed

text \<open>The sample URLs, records and timestamps.\<close>

lemma two_listed_url: "url_pattern_matches (originalUrl two_listed)"
  using ok_url by (simp add: two_listed_def)

lemma sample_codes:
  "short_code rec_new = js ''q1w2e3''" "short_code rec_xyz = js ''xyz''"
  "short_code rec_abc = js ''abc''"
  by (simp_all add: rec_new_def rec_xyz_def rec_abc_def sample_record_def)

lemma sample_codes_differ:
  "js ''q1w2e3'' \<noteq> js ''xyz''" "js ''q1w2e3'' \<noteq> js ''abc''" "js ''xyz'' \<noteq> js ''abc''"
  by (simp_all add: js_def)

lemma sample_stamps:
  "created_at rec_new = js ''2024-05-03T08:00:00''"
  "created_at rec_xyz = js ''2024-05-02T09:30:00''"
  "created_at rec_abc = js ''2024-05-01T10:00:00''"
  by (simp_all add: rec_new_def rec_xyz_def rec_abc_def sample_record_def)

lemma stamps_ordered:
  "js ''2024-05-01T10:00:00'' \<le> js ''2024-05-02T09:30:00''"
  "js ''2024-05-02T09:30:00'' \<le> js ''2024-05-03T08:00:00''"
  "js ''2024-05-01T10:00:00'' \<le> js ''2024-05-03T08:00:00''"
  by (simp_all add: js_def)

lemma urls_two_listed: "urls two_listed = [rec_xyz, rec_abc]"
  by (simp add: two_listed_def)

lemma urls_three_listed: "urls three_listed = [rec_new, rec_xyz, rec_abc]"
  by (simp add: three_listed_def)

lemma sample_lists_distinct:
  "distinct (codes [rec_xyz, rec_abc])" "distinct (codes [rec_new, rec_xyz, rec_abc])"
  using sample_codes_differ by (simp_all add: codes_def sample_codes)

lemma sample_lists_newest_first:
  "newest_first (\<lambda>s. s) [rec_xyz, rec_abc]"
  "newest_first (\<lambda>s. s) [rec_new, rec_xyz, rec_abc]"
  using stamps_ordered by (simp_all add: newest_first_def sample_stamps)

lemma sample_shorten:
  "urls (fst (shortenUrl sample_backend (PostOk rec_new) two_listed two_listed))
     = [rec_new, rec_xyz, rec_abc]"
  using two_listed_url by (simp add: urls_shortenUrl_PostOk urls_two_listed)

lemma sample_delete:
  "urls (fst (deleteUrl sample_backend (js ''abc'') PressDelete DeleteOk three_listed three_listed))
     = [rec_new, rec_xyz]"
  using sample_codes_differ by (simp add: urls_deleteUrl urls_three_listed sample_codes)

lemma sample_refresh:
  "urls (fst (fetchUrls sample_backend (GetOk [rec_new, rec_xyz, rec_abc]) two_listed))
     = [rec_new, rec_xyz, rec_abc]"
  by (simp add: urls_fetchUrls)

lemma dotted_url_facts:
  "length dotted_url = 38" "drop 35 dotted_url = js ''...''"
  by (simp_all add: dotted_url_def js_def)

lemma long_url_facts:
  "length long_url = 39" "take 35 long_url = js ''https://example.org/abcdefghijklmno''"
  by (simp_all add: long_url_def js_def)

section \<open>Properties of the handlers\<close>

subsection \<open>Validation of the original URL\<close>

text \<open>
  C1. For every content of the URL field, \<^verbatim>\<open>shortenUrl\<close> sends a request exactly when
  the field matches \<^verbatim>\<open>^https?://.+\<close>, and the request is the creation POST carrying
  the field unchanged. When the field does not match (the empty and the blank field
  included, which the first guard catches) the handler shows one alert titled
  \<^verbatim>\<open>Error\<close>, sends nothing and returns the state, the record list with it, as it
  was.
\<close>

theorem shortenUrl_submits_iff_pattern:
  "(requests (snd (shortenUrl B reply render st)) \<noteq> [] \<longleftrightarrow>
      url_pattern_matches (originalUrl render)) \<and>
   (url_pattern_matches (originalUrl render) \<longrightarrow>
      (\<exists>body. requests (snd (shortenUrl B reply render st)) =
                 [HttpPost (B @ js ''/api/shorten'') body]
         \<and> body_original_url body = originalUrl render)) \<and>
   (\<not> url_pattern_matches (originalUrl render) \<longrightarrow>
      fst (shortenUrl B reply render st) = st \<and>
      requests (snd (shortenUrl B reply render st)) = [] \<and>
      (\<exists>message. snd (shortenUrl B reply render st) = [Alert (js ''Error'') message]))"
  using url_pattern_matches_trim [of "originalUrl render"]
  by (cases reply) (auto simp: shortenUrl_def requests_def Let_def)

theorem shortenUrl_submits_iff_pattern_witness:
  "\<not> url_pattern_matches (js ''not-a-url'') \<and>
   fst (shortenUrl sample_backend (PostFailed None)
      (one_listed\<lparr>originalUrl := js ''not-a-url''\<rparr>) (one_listed\<lparr>originalUrl := js ''not-a-url''\<rparr>))
     = one_listed\<lparr>originalUrl := js ''not-a-url''\<rparr> \<and>
   requests (snd (shortenUrl sample_backend (PostFailed None)
      (one_listed\<lparr>originalUrl := js ''not-a-url''\<rparr>)
      (one_listed\<lparr>originalUrl := js ''not-a-url''\<rparr>))) = [] \<and>
   url_pattern_matches (js ''https://example.org/c'') \<and>
   requests (snd (shortenUrl sample_backend (PostFailed None)
      (one_listed\<lparr>originalUrl := js ''https://example.org/c''\<rparr>)
      (one_listed\<lparr>originalUrl := js ''https://example.org/c''\<rparr>))) \<noteq> []"
proof -
  let ?bad = "one_listed\<lparr>originalUrl := js ''not-a-url''\<rparr>"
  let ?good = "one_listed\<lparr>originalUrl := js ''https://example.org/c''\<rparr>"
  have bad: "\<not> url_pattern_matches (originalUrl ?bad)"
    using not_a_url by simp
  have good: "url_pattern_matches (originalUrl ?good)"
    using ok_url by simp
  note T = shortenUrl_submits_iff_pattern [of sample_backend "PostFailed None" ?bad ?bad]
  note U = shortenUrl_submits_iff_pattern [of sample_backend "PostFailed None" ?good ?good]
  from T bad have r1: "fst (shortenUrl sample_backend (PostFailed None) ?bad ?bad) = ?bad"
    by blast
  from T bad have r2: "requests (snd (shortenUrl sample_backend (PostFailed None) ?bad ?bad)) = []"
    by blast
  from U good have r3: "requests (snd (shortenUrl sample_backend (PostFailed None) ?good ?good)) \<noteq> []"
    by blast
  from not_a_url r1 r2 ok_url r3 show ?thesis by (intro conjI)
qed

subsection \<open>The custom code\<close>

text \<open>
  C9. When the custom-code field is empty or holds only characters that
  \<^verbatim>\<open>trim\<close> strips, and the URL field passes validation, the request is posted with
  \<^verbatim>\<open>custom_code: null\<close>: the blank field is not rejected, and a successful reply
  ends in the \<^verbatim>\<open>Success\<close> alert alone.
\<close>

theorem shortenUrl_blank_custom_code_null:
  assumes "url_pattern_matches (originalUrl render)"
    and "\<forall>c\<in>set (customCode render). isTrimmed c"
  shows "posted (snd (shortenUrl B reply render st)) =
           [\<lparr>body_original_url = originalUrl render, body_custom_code = None\<rparr>] \<and>
         alerts (snd (shortenUrl B (PostOk data) render st)) =
           [(js ''Success'', js ''URL shortened successfully!'')]"
proof -
  have ne: "trim (originalUrl render) \<noteq> []"
    using assms(1) by (rule url_pattern_matches_trim)
  have blank: "trim (customCode render) = []"
    using assms(2) by (simp add: trim_empty_iff)
  show ?thesis
    using assms(1) ne blank by (cases reply) (simp_all add: shortenUrl_def)
qed

theorem shortenUrl_blank_custom_code_null_witness:
  "url_pattern_matches (js ''https://example.org/c'') \<and>
   trim (js ''   '') = [] \<and>
   posted (snd (shortenUrl sample_backend (PostFailed None)
      (one_listed\<lparr>originalUrl := js ''https://example.org/c'', customCode := js ''   ''\<rparr>)
      (one_listed\<lparr>originalUrl := js ''https://example.org/c'', customCode := js ''   ''\<rparr>))) =
     [\<lparr>body_original_url = js ''https://example.org/c'', body_custom_code = None\<rparr>]"
proof -
  let ?st = "one_listed\<lparr>originalUrl := js ''https://example.org/c'', customCode := js ''   ''\<rparr>"
  have ou: "originalUrl ?st = js ''https://example.org/c''" by simp
  have cu: "customCode ?st = js ''   ''" by simp
  have h: "url_pattern_matches (originalUrl ?st)" unfolding ou by (rule ok_url)
  have blank: "\<forall>c\<in>set (js ''   ''). isTrimmed c"
    by (simp add: js_def isTrimmed_def isWhiteSpace_def)
  have blank': "\<forall>c\<in>set (customCode ?st). isTrimmed c" unfolding cu by (rule blank)
  note T = shortenUrl_blank_custom_code_null [OF h blank', of sample_backend "PostFailed None"
      ?st "sample_record [] [] []", THEN conjunct1, unfolded ou]
  have blank'': "trim (js ''   '') = []"
    using blank by (simp add: trim_empty_iff)
  from ok_url blank'' T show ?thesis by (intro conjI)
qed

text \<open>
  The handler has no check of the custom code's length or alphabet. A field holding
  \<^verbatim>\<open>my code/1\<close>, with a space and a slash, is posted as it stands and the call ends
  in the \<^verbatim>\<open>Success\<close> alert.
\<close>

theorem shortenUrl_unsafe_custom_code_example:
  "isWhiteSpace 0x20 \<and> 0x20 \<in> set (js ''my code/1'') \<and>
   snd (shortenUrl sample_backend
      (PostOk (sample_record ''https://example.org/c'' ''my code/1'' ''2024-05-03T08:00:00''))
      (one_listed\<lparr>originalUrl := js ''https://example.org/c'', customCode := js ''my code/1''\<rparr>)
      (one_listed\<lparr>originalUrl := js ''https://example.org/c'', customCode := js ''my code/1''\<rparr>))
   = [HttpPost (sample_backend @ js ''/api/shorten'')
        \<lparr>body_original_url = js ''https://example.org/c'',
         body_custom_code = Some (js ''my code/1'')\<rparr>,
      Alert (js ''Success'') (js ''URL shortened successfully!'')]"
proof -
  have t: "trim (js ''my code/1'') = js ''my code/1''"
    by (simp add: trim_def js_def isTrimmed_def isWhiteSpace_def isLineTerminator_def)
  show ?thesis
    using ok_url url_pattern_matches_trim [OF ok_url] t
    by (simp add: shortenUrl_def isWhiteSpace_def) (simp add: js_def)
qed

text \<open>
  C3 (as the handler behaves). For a URL field that passes validation the
  custom-code field splits into a margin of trimmed characters, a core and another such
  margin; a non-empty core neither starts nor ends with a trimmed character; the request
  carries the core, of any length and over any characters, as \<^verbatim>\<open>custom_code\<close>, or
  \<^verbatim>\<open>null\<close> when the core is empty. The handler raises no error of its own for the
  code.
\<close>

theorem shortenUrl_custom_code_forwarded:
  assumes "url_pattern_matches (originalUrl render)"
  shows "\<exists>l code r.
     customCode render = l @ code @ r \<and>
     (\<forall>x\<in>set l. isTrimmed x) \<and> (\<forall>x\<in>set r. isTrimmed x) \<and>
     (code \<noteq> [] \<longrightarrow> \<not> isTrimmed (hd code) \<and> \<not> isTrimmed (last code)) \<and>
     posted (snd (shortenUrl B reply render st)) =
       [\<lparr>body_original_url = originalUrl render,
         body_custom_code = (if code = [] then None else Some code)\<rparr>] \<and>
     alerts (snd (shortenUrl B (PostOk data) render st)) =
       [(js ''Success'', js ''URL shortened successfully!'')]"
proof -
  obtain l r where split: "customCode render = l @ trim (customCode render) @ r"
    and l: "\<forall>x\<in>set l. isTrimmed x" and r: "\<forall>x\<in>set r. isTrimmed x"
    using trim_decomp [of "customCode render"] by blast
  have ends: "trim (customCode render) \<noteq> [] \<longrightarrow>
      \<not> isTrimmed (hd (trim (customCode render))) \<and>
      \<not> isTrimmed (last (trim (customCode render)))"
    using trim_hd trim_last by blast
  have ne: "trim (originalUrl render) \<noteq> []"
    using assms by (rule url_pattern_matches_trim)
  have body: "posted (snd (shortenUrl B reply render st)) =
       [\<lparr>body_original_url = originalUrl render,
         body_custom_code = (if trim (customCode render) = [] then None
                             else Some (trim (customCode render)))\<rparr>]"
    using assms ne by (cases reply) (simp_all add: shortenUrl_def)
  have ok: "alerts (snd (shortenUrl B (PostOk data) render st)) =
       [(js ''Success'', js ''URL shortened successfully!'')]"
    using assms ne by (simp add: shortenUrl_def)
  from split l r ends body ok show ?thesis by blast
qed

theorem shortenUrl_custom_code_forwarded_witness:
  "url_pattern_matches (js ''https://example.org/c'') \<and>
   (\<exists>l code r.
     js '' my-code '' = l @ code @ r \<and>
     (\<forall>x\<in>set l. isTrimmed x) \<and> (\<forall>x\<in>set r. isTrimmed x) \<and>
     (code \<noteq> [] \<longrightarrow> \<not> isTrimmed (hd code) \<and> \<not> isTrimmed (last code)) \<and>
     posted (snd (shortenUrl sample_backend (PostFailed None)
        (one_listed\<lparr>originalUrl := js ''https://example.org/c'', customCode := js '' my-code ''\<rparr>)
        (one_listed\<lparr>originalUrl := js ''https://example.org/c'', customCode := js '' my-code ''\<rparr>))) =
       [\<lparr>body_original_url = js ''https://example.org/c'',
         body_custom_code = (if code = [] then None else Some code)\<rparr>])"
proof -
  let ?st = "one_listed\<lparr>originalUrl := js ''https://example.org/c'', customCode := js '' my-code ''\<rparr>"
  have ou: "originalUrl ?st = js ''https://example.org/c''" by simp
  have cu: "customCode ?st = js '' my-code ''" by simp
  have h: "url_pattern_matches (originalUrl ?st)" unfolding ou by (rule ok_url)
  from shortenUrl_custom_code_forwarded [OF h, of sample_backend "PostFailed None" ?st
      "sample_record [] [] []"]
  obtain l code r where
    a: "customCode ?st = l @ code @ r"
    and b: "\<forall>x\<in>set l. isTrimmed x" and c: "\<forall>x\<in>set r. isTrimmed x"
    and d: "code \<noteq> [] \<longrightarrow> \<not> isTrimmed (hd code) \<and> \<not> isTrimmed (last code)"
    and e: "posted (snd (shortenUrl sample_backend (PostFailed None) ?st ?st)) =
       [\<lparr>body_original_url = originalUrl ?st,
         body_custom_code = (if code = [] then None else Some code)\<rparr>]"
    by blast
  show ?thesis
    apply (rule conjI)
     apply (rule ok_url)
    apply (rule exI [of _ l], rule exI [of _ code], rule exI [of _ r])
    apply (intro conjI)
        apply (rule a [unfolded cu])
       apply (rule b)
      apply (rule c)
     apply (rule d)
    apply (rule e [unfolded ou])
    done
qed

subsection \<open>A failed request\<close>

text \<open>
  A rejection whose \<^verbatim>\<open>detail\<close> is the empty string is shown as
  \<^verbatim>\<open>Failed to shorten URL\<close>, not as the empty detail: \<^verbatim>\<open>||\<close> takes its right
  operand for every falsy left one.
\<close>

theorem shortenUrl_empty_detail_example:
  "alerts (snd (shortenUrl sample_backend (PostFailed (Some []))
      (one_listed\<lparr>originalUrl := js ''https://example.org/c''\<rparr>)
      (one_listed\<lparr>originalUrl := js ''https://example.org/c''\<rparr>)))
     = [(js ''Error'', js ''Failed to shorten URL'')] \<and>
   js ''Failed to shorten URL'' \<noteq> []"
  using ok_url url_pattern_matches_trim [OF ok_url]
  by (simp add: shortenUrl_def) (simp add: js_def)

text \<open>
  C4 (as the handler behaves). A failed \<^verbatim>\<open>shortenUrl\<close> leaves the record list
  as it was, so a record listed under a contested code keeps its URL. After a request was
  sent, a non-empty \<^verbatim>\<open>detail\<close> of the rejection is the message of the single
  \<^verbatim>\<open>Error\<close> alert, character for character; a missing or empty \<^verbatim>\<open>detail\<close>
  gives the fixed message \<^verbatim>\<open>Failed to shorten URL\<close>.
\<close>

theorem shortenUrl_failure_keeps_urls:
  "urls (fst (shortenUrl B (PostFailed detail) render st)) = urls st \<and>
   (url_pattern_matches (originalUrl render) \<longrightarrow>
      (\<forall>d. detail = Some d \<and> d \<noteq> [] \<longrightarrow>
         alerts (snd (shortenUrl B (PostFailed detail) render st)) = [(js ''Error'', d)]) \<and>
      (detail = None \<or> detail = Some [] \<longrightarrow>
         alerts (snd (shortenUrl B (PostFailed detail) render st)) =
           [(js ''Error'', js ''Failed to shorten URL'')]))"
  using url_pattern_matches_trim [of "originalUrl render"]
  by (auto simp: shortenUrl_def)

theorem shortenUrl_failure_keeps_urls_witness:
  "url_pattern_matches (js ''https://example.org/c'') \<and>
   urls (fst (shortenUrl sample_backend (PostFailed (Some (js ''Custom code already exists'')))
      (one_listed\<lparr>originalUrl := js ''https://example.org/c'', customCode := js ''abc''\<rparr>)
      (one_listed\<lparr>originalUrl := js ''https://example.org/c'', customCode := js ''abc''\<rparr>)))
     = urls one_listed \<and>
   alerts (snd (shortenUrl sample_backend (PostFailed (Some (js ''Custom code already exists'')))
      (one_listed\<lparr>originalUrl := js ''https://example.org/c'', customCode := js ''abc''\<rparr>)
      (one_listed\<lparr>originalUrl := js ''https://example.org/c'', customCode := js ''abc''\<rparr>)))
     = [(js ''Error'', js ''Custom code already exists'')]"
proof -
  let ?st = "one_listed\<lparr>originalUrl := js ''https://example.org/c'', customCode := js ''abc''\<rparr>"
  have ne: "js ''Custom code already exists'' \<noteq> []" by (simp add: js_def)
  have h: "url_pattern_matches (originalUrl ?st)" using ok_url by simp
  note T = shortenUrl_failure_keeps_urls [of sample_backend
      "Some (js ''Custom code already exists'')" ?st ?st]
  from T have r1: "urls (fst (shortenUrl sample_backend
      (PostFailed (Some (js ''Custom code already exists''))) ?st ?st)) = urls ?st"
    by (rule conjunct1)
  from T h ne have r2: "alerts (snd (shortenUrl sample_backend
      (PostFailed (Some (js ''Custom code already exists''))) ?st ?st))
     = [(js ''Error'', js ''Custom code already exists'')]"
    by blast
  have u: "urls ?st = urls one_listed" by simp
  from ok_url r1 [unfolded u] r2 show ?thesis by (intro conjI)
qed

subsection \<open>Deletion\<close>

text \<open>
  C5. After a successful \<^verbatim>\<open>deleteUrl(c)\<close> the record list should be the previous
  list without the records coded \<open>c\<close>, every other record untouched. The handler filters
  the list of the render whose card was pressed instead of the list current at the reply.
  With \<^verbatim>\<open>q1w2e3\<close>, \<^verbatim>\<open>xyz\<close>, \<^verbatim>\<open>abc\<close> listed, the user confirms the deletion of
  \<^verbatim>\<open>abc\<close> and, before its reply, that of \<^verbatim>\<open>xyz\<close>. The first reply leaves
  \<^verbatim>\<open>q1w2e3\<close>, \<^verbatim>\<open>xyz\<close>; the second leaves \<^verbatim>\<open>q1w2e3\<close>, \<^verbatim>\<open>abc\<close>, which is
  not the previous list without \<^verbatim>\<open>xyz\<close>: the deleted \<^verbatim>\<open>abc\<close> is listed again.
\<close>

theorem deleteUrl_overlapping_example:
  "urls (fst (deleteUrl sample_backend (js ''abc'') PressDelete DeleteOk three_listed three_listed))
     = [rec_new, rec_xyz] \<and>
   urls (fst (deleteUrl sample_backend (js ''xyz'') PressDelete DeleteOk three_listed
      (fst (deleteUrl sample_backend (js ''abc'') PressDelete DeleteOk three_listed three_listed))))
     = [rec_new, rec_abc] \<and>
   filter (\<lambda>url. short_code url \<noteq> js ''xyz'') [rec_new, rec_xyz] = [rec_new] \<and>
   [rec_new, rec_abc] \<noteq> [rec_new] \<and>
   rec_abc \<notin> set [rec_new, rec_xyz]"
proof -
  have differ: "rec_abc \<noteq> rec_new" "rec_abc \<noteq> rec_xyz"
    using sample_codes_differ sample_codes by auto
  have second: "urls (fst (deleteUrl sample_backend (js ''xyz'') PressDelete DeleteOk three_listed
      (fst (deleteUrl sample_backend (js ''abc'') PressDelete DeleteOk three_listed three_listed))))
     = [rec_new, rec_abc]"
    using sample_codes_differ by (simp add: urls_deleteUrl urls_three_listed sample_codes)
  have expected: "filter (\<lambda>url. short_code url \<noteq> js ''xyz'') [rec_new, rec_xyz] = [rec_new]"
    using sample_codes_differ by (simp add: sample_codes)
  have again: "rec_abc \<notin> set [rec_new, rec_xyz]"
    using differ by simp
  have neq: "[rec_new, rec_abc] \<noteq> [rec_new]" by simp
  from sample_delete second expected neq again show ?thesis by (intro conjI)
qed

subsection \<open>Invariants of the record list\<close>

text \<open>
  The handler prepends whatever record a successful reply carries. With \<^verbatim>\<open>abc\<close>
  already listed, a reply carrying a record coded \<^verbatim>\<open>abc\<close> yields a list with two
  records of that code.
\<close>

theorem shortenUrl_repeated_code_example:
  "distinct (codes (urls one_listed)) \<and>
   \<not> distinct (codes (urls (fst (shortenUrl sample_backend
        (PostOk (sample_record ''https://example.org/c'' ''abc'' ''2024-05-03T08:00:00''))
        (one_listed\<lparr>originalUrl := js ''https://example.org/c''\<rparr>)
        (one_listed\<lparr>originalUrl := js ''https://example.org/c''\<rparr>)))))"
  using ok_url
  by (simp add: urls_shortenUrl_PostOk)
     (simp add: codes_def one_listed_def initial_state_def sample_record_def)

text \<open>
  C2 (as the handlers behave). Let the list a handler works on (the one shown when
  its button was pressed) and the current list have pairwise distinct codes. Then the
  codes are pairwise distinct after every \<^verbatim>\<open>deleteUrl\<close> (whatever the choice and the
  reply), after a failed \<^verbatim>\<open>shortenUrl\<close> and after a failed refresh; after a successful
  \<^verbatim>\<open>shortenUrl\<close> provided the code of the returned record is not in the list it is
  prepended to; and after a successful refresh provided the fetched list has pairwise
  distinct codes. The client checks neither proviso.
\<close>

theorem codes_distinct_preserved:
  "distinct (codes (urls render)) \<Longrightarrow> distinct (codes (urls st)) \<Longrightarrow>
     distinct (codes (urls (fst (deleteUrl B c choice dreply render st)))) \<and>
     (short_code data \<notin> set (codes (urls render)) \<longrightarrow>
        distinct (codes (urls (fst (shortenUrl B (PostOk data) render st))))) \<and>
     distinct (codes (urls (fst (shortenUrl B (PostFailed detail) render st)))) \<and>
     (distinct (codes fetched) \<longrightarrow>
        distinct (codes (urls (fst (fetchUrls B (GetOk fetched) st))))) \<and>
     distinct (codes (urls (fst (fetchUrls B GetFailed st))))"
proof -
  assume pressed: "distinct (codes (urls render))" and inv: "distinct (codes (urls st))"
  have del: "distinct (codes (urls (fst (deleteUrl B c choice dreply render st))))"
    using pressed inv by (simp add: urls_deleteUrl distinct_codes_filter)
  have add: "distinct (codes (urls (fst (shortenUrl B (PostOk data) render st))))"
    if "short_code data \<notin> set (codes (urls render))"
    using pressed inv that by (simp add: urls_shortenUrl_PostOk) (simp add: codes_def)
  have fail: "distinct (codes (urls (fst (shortenUrl B (PostFailed detail) render st))))"
    using inv by (simp add: urls_shortenUrl_PostFailed)
  have fetch: "distinct (codes (urls (fst (fetchUrls B (GetOk fetched) st))))"
    if "distinct (codes fetched)"
    using that by (simp add: urls_fetchUrls)
  have nofetch: "distinct (codes (urls (fst (fetchUrls B GetFailed st))))"
    using inv by (simp add: urls_fetchUrls)
  from del add fail fetch nofetch show ?thesis by blast
qed

theorem codes_distinct_preserved_witness:
  "url_pattern_matches (originalUrl two_listed) \<and>
   distinct (codes (urls two_listed)) \<and>
   short_code rec_new \<notin> set (codes (urls two_listed)) \<and>
   urls (fst (shortenUrl sample_backend (PostOk rec_new) two_listed two_listed))
     = [rec_new, rec_xyz, rec_abc] \<and>
   distinct (codes (urls (fst (shortenUrl sample_backend (PostOk rec_new) two_listed two_listed)))) \<and>
   distinct (codes (urls three_listed)) \<and>
   urls (fst (deleteUrl sample_backend (js ''abc'') PressDelete DeleteOk three_listed three_listed))
     = [rec_new, rec_xyz] \<and>
   distinct (codes (urls (fst (deleteUrl sample_backend (js ''abc'') PressDelete DeleteOk
      three_listed three_listed)))) \<and>
   distinct (codes [rec_new, rec_xyz, rec_abc]) \<and>
   urls (fst (fetchUrls sample_backend (GetOk [rec_new, rec_xyz, rec_abc]) two_listed))
     = [rec_new, rec_xyz, rec_abc] \<and>
   distinct (codes (urls (fst (fetchUrls sample_backend (GetOk [rec_new, rec_xyz, rec_abc])
      two_listed))))"
proof -
  have two: "distinct (codes (urls two_listed))"
    using sample_lists_distinct(1) by (simp add: urls_two_listed)
  have three: "distinct (codes (urls three_listed))"
    using sample_lists_distinct(2) by (simp add: urls_three_listed)
  have fresh: "short_code rec_new \<notin> set (codes (urls two_listed))"
    using sample_codes_differ by (simp add: urls_two_listed codes_def sample_codes)
  note T = codes_distinct_preserved [OF two two, of sample_backend "js ''abc''" PressDelete
      DeleteOk rec_new None "[rec_new, rec_xyz, rec_abc]"]
  note U = codes_distinct_preserved [OF three three, of sample_backend "js ''abc''" PressDelete
      DeleteOk rec_new None "[rec_new, rec_xyz, rec_abc]"]
  from T fresh have add: "distinct (codes (urls (fst (shortenUrl sample_backend (PostOk rec_new)
      two_listed two_listed))))"
    by blast
  from U have del: "distinct (codes (urls (fst (deleteUrl sample_backend (js ''abc'') PressDelete
      DeleteOk three_listed three_listed))))"
    by (rule conjunct1)
  from T sample_lists_distinct(2) have fetch: "distinct (codes (urls (fst (fetchUrls
      sample_backend (GetOk [rec_new, rec_xyz, rec_abc]) two_listed))))"
    by blast
  from two_listed_url two fresh sample_shorten add three sample_delete del
    sample_lists_distinct(2) sample_refresh fetch
  show ?thesis by (intro conjI)
qed

text \<open>
  C6. Assume the list a handler works on (the one shown when its button was pressed)
  and the current list are ordered newest first. The list stays so after every
  \<^verbatim>\<open>deleteUrl\<close>, after a failed \<^verbatim>\<open>shortenUrl\<close> or refresh, after a successful
  \<^verbatim>\<open>shortenUrl\<close> whose new record is at least as recent as every record of the list it
  is prepended to, and after a successful refresh whose fetched list arrives newest first.
  The initial list is empty, so under these assumptions every list the screen shows is
  ordered.
\<close>

theorem newest_first_preserved:
  "newest_first stamp (urls render) \<Longrightarrow> newest_first stamp (urls st) \<Longrightarrow>
     newest_first stamp (urls (fst (deleteUrl B c choice dreply render st))) \<and>
     ((\<forall>url\<in>set (urls render). stamp (created_at url) \<le> stamp (created_at data)) \<longrightarrow>
        newest_first stamp (urls (fst (shortenUrl B (PostOk data) render st)))) \<and>
     newest_first stamp (urls (fst (shortenUrl B (PostFailed detail) render st))) \<and>
     (newest_first stamp fetched \<longrightarrow>
        newest_first stamp (urls (fst (fetchUrls B (GetOk fetched) st)))) \<and>
     newest_first stamp (urls (fst (fetchUrls B GetFailed st)))"
proof -
  assume pressed: "newest_first stamp (urls render)" and inv: "newest_first stamp (urls st)"
  have del: "newest_first stamp (urls (fst (deleteUrl B c choice dreply render st)))"
    using pressed inv by (simp add: urls_deleteUrl newest_first_filter)
  have add: "newest_first stamp (urls (fst (shortenUrl B (PostOk data) render st)))"
    if "\<forall>url\<in>set (urls render). stamp (created_at url) \<le> stamp (created_at data)"
    using pressed inv that by (simp add: urls_shortenUrl_PostOk) (simp add: newest_first_def)
  have fail: "newest_first stamp (urls (fst (shortenUrl B (PostFailed detail) render st)))"
    using inv by (simp add: urls_shortenUrl_PostFailed)
  have fetch: "newest_first stamp (urls (fst (fetchUrls B (GetOk fetched) st)))"
    if "newest_first stamp fetched"
    using that by (simp add: urls_fetchUrls)
  have nofetch: "newest_first stamp (urls (fst (fetchUrls B GetFailed st)))"
    using inv by (simp add: urls_fetchUrls)
  from del add fail fetch nofetch show ?thesis by blast
qed

theorem newest_first_preserved_witness:
  "url_pattern_matches (originalUrl two_listed) \<and>
   newest_first (\<lambda>s. s) (urls two_listed) \<and>
   created_at rec_xyz \<le> created_at rec_new \<and>
   created_at rec_abc \<le> created_at rec_new \<and>
   urls (fst (shortenUrl sample_backend (PostOk rec_new) two_listed two_listed))
     = [rec_new, rec_xyz, rec_abc] \<and>
   newest_first (\<lambda>s. s) (urls (fst (shortenUrl sample_backend (PostOk rec_new)
      two_listed two_listed))) \<and>
   newest_first (\<lambda>s. s) (urls three_listed) \<and>
   urls (fst (deleteUrl sample_backend (js ''abc'') PressDelete DeleteOk three_listed three_listed))
     = [rec_new, rec_xyz] \<and>
   newest_first (\<lambda>s. s) (urls (fst (deleteUrl sample_backend (js ''abc'') PressDelete DeleteOk
      three_listed three_listed))) \<and>
   newest_first (\<lambda>s. s) [rec_new, rec_xyz, rec_abc] \<and>
   newest_first (\<lambda>s. s) (urls (fst (fetchUrls sample_backend
      (GetOk [rec_new, rec_xyz, rec_abc]) two_listed)))"
proof -
  have two: "newest_first (\<lambda>s. s) (urls two_listed)"
    using sample_lists_newest_first(1) by (simp add: urls_two_listed)
  have three: "newest_first (\<lambda>s. s) (urls three_listed)"
    using sample_lists_newest_first(2) by (simp add: urls_three_listed)
  have o1: "created_at rec_xyz \<le> created_at rec_new"
    using stamps_ordered(2) by (simp add: sample_stamps)
  have o2: "created_at rec_abc \<le> created_at rec_new"
    using stamps_ordered(3) by (simp add: sample_stamps)
  have older: "\<forall>url\<in>set (urls two_listed). created_at url \<le> created_at rec_new"
    using o1 o2 by (simp add: urls_two_listed)
  note T = newest_first_preserved [OF two two, of sample_backend "js ''abc''" PressDelete
      DeleteOk rec_new None "[rec_new, rec_xyz, rec_abc]"]
  note U = newest_first_preserved [OF three three, of sample_backend "js ''abc''" PressDelete
      DeleteOk rec_new None "[rec_new, rec_xyz, rec_abc]"]
  from T older have add: "newest_first (\<lambda>s. s) (urls (fst (shortenUrl sample_backend
      (PostOk rec_new) two_listed two_listed)))"
    by blast
  from U have del: "newest_first (\<lambda>s. s) (urls (fst (deleteUrl sample_backend (js ''abc'')
      PressDelete DeleteOk three_listed three_listed)))"
    by (rule conjunct1)
  from T sample_lists_newest_first(2) have fetch: "newest_first (\<lambda>s. s) (urls (fst (fetchUrls
      sample_backend (GetOk [rec_new, rec_xyz, rec_abc]) two_listed)))"
    by blast
  from two_listed_url two o1 o2 sample_shorten add three sample_delete del
    sample_lists_newest_first(2) fetch
  show ?thesis by (intro conjI)
qed

subsection \<open>Display\<close>

text \<open>
  C7. The short URL shown on a card and the text the Copy button puts on the
  clipboard are the same string: the base, which is \<^verbatim>\<open>BACKEND_URL\<close> followed by
  \<^verbatim>\<open>/api/\<close>, followed by the record's short code. For a fixed base it is determined
  by the code, and distinct codes give distinct short URLs.
\<close>

theorem short_url_is_base_plus_code:
  "shortCodeText B url = (B @ js ''/api/'') @ short_code url \<and>
   clipboard (copyPressed B url) = [(B @ js ''/api/'') @ short_code url] \<and>
   getShortUrl B c = (B @ js ''/api/'') @ c \<and>
   (getShortUrl B c = getShortUrl B c' \<longleftrightarrow> c = c')"
  by (simp add: shortCodeText_def copyPressed_def copyToClipboard_def getShortUrl_def)

theorem short_url_is_base_plus_code_witness:
  "shortCodeText sample_backend
     (sample_record ''https://example.org/a'' ''abc'' ''2024-05-01T10:00:00'')
     = js ''https://sho.rt/api/abc'' \<and>
   clipboard (copyPressed sample_backend
     (sample_record ''https://example.org/a'' ''abc'' ''2024-05-01T10:00:00''))
     = [js ''https://sho.rt/api/abc'']"
  using short_url_is_base_plus_code [of sample_backend
      "sample_record ''https://example.org/a'' ''abc'' ''2024-05-01T10:00:00''"]
  by (simp add: sample_backend_def sample_record_def js_def)

text \<open>
  A string of 38 code units that ends in three dots is longer than the bound 35 of the
  card title, and \<^verbatim>\<open>truncateUrl\<close> returns it as it is: its first 35 code units
  followed by three dots are the string itself. The card of a record with that URL shows
  it so.
\<close>

theorem truncateUrl_dotted_example:
  "truncateUrl dotted_url 35 = dotted_url \<and> \<not> int (length dotted_url) \<le> 35 \<and>
   urlCardTitle (rec_abc\<lparr>original_url := dotted_url\<rparr>) = dotted_url"
  using truncateUrl_fixed_iff [of dotted_url 35]
  by (simp add: dotted_url_facts urlCardTitle_def)

text \<open>
  C10 (as the function behaves). For every string \<open>u\<close> and every bound \<open>n\<close>, a
  natural number, \<^verbatim>\<open>truncateUrl(u, n)\<close> is \<open>u\<close> when \<open>u\<close> has at most \<open>n\<close> code
  units and otherwise the first \<open>n\<close> code units of \<open>u\<close> followed by three dots. It
  returns \<open>u\<close> itself exactly when \<open>u\<close> has at most \<open>n\<close> code units or has \<open>n + 3\<close>
  code units of which the last three are dots. The result never has more than
  \<open>n + 3\<close> code units and starts with the first \<open>n\<close> code units of \<open>u\<close>. The default
  bound is 40.
\<close>

theorem truncateUrl_cases:
  "(length u \<le> n \<longrightarrow> truncateUrl u (int n) = u) \<and>
   (n < length u \<longrightarrow> truncateUrl u (int n) = take n u @ js ''...'') \<and>
   (truncateUrl u (int n) = u \<longleftrightarrow>
      length u \<le> n \<or> (length u = n + 3 \<and> drop n u = js ''...'')) \<and>
   length (truncateUrl u (int n)) \<le> n + 3 \<and>
   prefix (take n u) (truncateUrl u (int n)) \<and>
   truncateUrl_default u = truncateUrl u (int 40)"
proof -
  have bound: "length (truncateUrl u (int n)) \<le> n + 3"
  proof (cases "length u \<le> n")
    case True
    then show ?thesis by (simp add: truncateUrl_short)
  next
    case False
    then show ?thesis by (simp add: truncateUrl_long js_dots)
  qed
  have pre: "prefix (take n u) (truncateUrl u (int n))"
  proof (cases "length u \<le> n")
    case True
    then show ?thesis by (simp add: truncateUrl_short)
  next
    case False
    then show ?thesis by (simp add: truncateUrl_long)
  qed
  have dflt: "truncateUrl_default u = truncateUrl u (int 40)"
    by (simp add: truncateUrl_default_def)
  from truncateUrl_short [of u n] truncateUrl_long [of n u] truncateUrl_fixed_iff [of u n]
    bound pre dflt
  show ?thesis by blast
qed

theorem truncateUrl_cases_witness:
  "length (js ''https://example.org/a'') \<le> 35 \<and>
   truncateUrl (js ''https://example.org/a'') (int 35) = js ''https://example.org/a'' \<and>
   35 < length long_url \<and>
   truncateUrl long_url (int 35) = js ''https://example.org/abcdefghijklmno...'' \<and>
   truncateUrl long_url (int 35) \<noteq> long_url \<and>
   length (truncateUrl long_url (int 35)) \<le> 35 + 3"
proof -
  have a: "length (js ''https://example.org/a'') \<le> 35" by (simp add: js_def)
  have b: "35 < length long_url" by (simp add: long_url_facts)
  note T = truncateUrl_cases [of "js ''https://example.org/a''" 35]
  note U = truncateUrl_cases [of long_url 35]
  from T a have r1: "truncateUrl (js ''https://example.org/a'') (int 35) = js ''https://example.org/a''"
    by blast
  from U b have r2: "truncateUrl long_url (int 35) = take 35 long_url @ js ''...''"
    by blast
  have r2': "truncateUrl long_url (int 35) = js ''https://example.org/abcdefghijklmno...''"
    unfolding r2 long_url_facts(2) by (simp add: js_def)
  have nd: "\<not> (length long_url \<le> 35 \<or> (length long_url = 35 + 3 \<and> drop 35 long_url = js ''...''))"
    by (simp add: long_url_facts)
  from U nd have r3: "truncateUrl long_url (int 35) \<noteq> long_url"
    by blast
  from U have r4: "length (truncateUrl long_url (int 35)) \<le> 35 + 3"
    by blast
  from a r1 b r2' r3 r4 show ?thesis by (intro conjI)
qed

end
